theory Spec2Isabelle
  imports Complex_Main "HOL-Library.Sublist"
begin

section \<open>Python values\<close>

text \<open>
  A Python \<open>str\<close> is a sequence of Unicode code points; it is modelled as a list of
  natural numbers, so that one element is one code point (the example input of the
  validator holds U+00B2 and U+1D62). \<open>U\<close> turns an ASCII literal into such a list.

  A Python \<open>float\<close> is modelled by the exact rational it stands for. The numbers the
  validator handles are decimal literals and multiples of 0.05 between 0 and 1, rounded
  to two places at the end: the double nearest to the exact result is what Python holds.
\<close>

type_synonym pystr = "nat list"

definition U :: "string \<Rightarrow> pystr" where
  "U s = map of_char s"

datatype pyval =
    PNone
  | PBool bool
  | PInt int
  | PFloat rat
  | PStr pystr
  | PList "pyval list"
  | PDict "(pystr \<times> pyval) list"

datatype py_error = KeyError | TypeError | AttributeError

definition bind :: "py_error + 'a \<Rightarrow> ('a \<Rightarrow> py_error + 'b) \<Rightarrow> py_error + 'b" where
  "bind m f = (case m of Inl e \<Rightarrow> Inl e | Inr x \<Rightarrow> f x)"

text \<open>\<open>d[k]\<close> with a string key: a dict looks the key up and raises KeyError when it is
  missing; every other value raises TypeError (None, numbers and booleans are not
  subscriptable, strings and lists take integer indices only).\<close>

fun getitem :: "pyval \<Rightarrow> pystr \<Rightarrow> py_error + pyval" where
  "getitem (PDict kvs) k = (case map_of kvs k of None \<Rightarrow> Inl KeyError | Some v \<Rightarrow> Inr v)"
| "getitem _ k = Inl TypeError"

text \<open>\<open>d[k] = v\<close> on a dict: an existing key keeps its place, a new key goes last.\<close>

fun setitem :: "(pystr \<times> pyval) list \<Rightarrow> pystr \<Rightarrow> pyval \<Rightarrow> (pystr \<times> pyval) list" where
  "setitem [] k v = [(k, v)]"
| "setitem ((k', v') # kvs) k v =
     (if k' = k then (k, v) # kvs else (k', v') # setitem kvs k v)"

text \<open>\<open>x > c\<close> and \<open>x < c\<close> for a float constant \<open>c\<close>: numbers compare by value, a
  boolean counts as 0 or 1, anything else raises TypeError.\<close>

fun py_gt :: "pyval \<Rightarrow> rat \<Rightarrow> py_error + bool" where
  "py_gt (PFloat r) c = Inr (r > c)"
| "py_gt (PInt i) c = Inr (of_int i > c)"
| "py_gt (PBool b) c = Inr ((if b then 1 else 0) > c)"
| "py_gt _ c = Inl TypeError"

fun py_lt :: "pyval \<Rightarrow> rat \<Rightarrow> py_error + bool" where
  "py_lt (PFloat r) c = Inr (r < c)"
| "py_lt (PInt i) c = Inr (of_int i < c)"
| "py_lt (PBool b) c = Inr ((if b then 1 else 0) < c)"
| "py_lt _ c = Inl TypeError"

text \<open>\<open>round(x, 2)\<close>: to the nearest hundredth, a tie going to the even one.\<close>

definition round_half_even :: "rat \<Rightarrow> int" where
  "round_half_even q =
     (let f = \<lfloor>q\<rfloor>; d = q - of_int f
      in if d < 1 / 2 then f else if d > 1 / 2 then f + 1 else if even f then f else f + 1)"

definition py_round2 :: "rat \<Rightarrow> rat" where
  "py_round2 x = of_int (round_half_even (x * 100)) / 100"

section \<open>The rule engine: \<open>apply_iec_rules\<close>\<close>

text \<open>
  A finding is the dict the rule engine appends to \<open>validation\<close>. Its \<open>provided\<close> entry
  is the raw field value, a fixed text, or an f-string: \<open>Formatted v s\<close> stands for the
  text of \<open>v\<close> followed by \<open>s\<close>.
\<close>

datatype provided = Raw pyval | Text pystr | Formatted pyval pystr

record finding =
  f_field :: pystr
  f_status :: pystr
  f_expected :: pystr
  f_provided :: provided
  f_comment :: pystr

definition FAIL :: pystr where "FAIL = U ''FAIL''"
definition WARN :: pystr where "WARN = U ''WARN''"
definition PASS :: pystr where "PASS = U ''PASS''"

definition LV_STANDARD :: pystr where "LV_STANDARD = U ''IEC 60502-1''"

definition le_1_kv :: pystr where
  "le_1_kv = 8804 # U '' 1 kV''"

definition rule_standard :: "pyval \<Rightarrow> finding list \<Rightarrow> py_error + finding list" where
  "rule_standard flds validation =
     bind (getitem flds (U ''standard'')) (\<lambda>std.
       if std \<noteq> PStr LV_STANDARD then
         Inr (validation @ [\<lparr>f_field = U ''standard'', f_status = FAIL,
           f_expected = LV_STANDARD, f_provided = Raw std,
           f_comment = U ''IEC 60502-1 must be explicitly specified for LV cable designs.''\<rparr>])
       else Inr validation)"

definition rule_voltage :: "pyval \<Rightarrow> finding list \<Rightarrow> py_error + finding list" where
  "rule_voltage flds validation =
     bind (getitem flds (U ''voltage_kv'')) (\<lambda>v.
       if v = PNone then
         Inr (validation @ [\<lparr>f_field = U ''voltage_kv'', f_status = WARN,
           f_expected = le_1_kv, f_provided = Text (U ''Not specified''),
           f_comment = U ''Voltage rating must be specified. IEC 60502-1 covers up to 1 kV.''\<rparr>])
       else bind (py_gt v 1) (\<lambda>above.
         if above then
           Inr (validation @ [\<lparr>f_field = U ''voltage_kv'', f_status = FAIL,
             f_expected = le_1_kv, f_provided = Formatted v (U '' kV''),
             f_comment = U ''IEC 60502-1 is valid only for low voltage ('' @ le_1_kv
               @ U ''). Use IEC 60502-2 for medium voltage.''\<rparr>])
         else Inr validation))"

text \<open>Rules 3 to 6 have one shape: a WARN when the field is None.\<close>

definition rule_present ::
  "pystr \<Rightarrow> pystr \<Rightarrow> pystr \<Rightarrow> pyval \<Rightarrow> finding list \<Rightarrow> py_error + finding list" where
  "rule_present name expected comment flds validation =
     bind (getitem flds name) (\<lambda>v.
       if v = PNone then
         Inr (validation @ [\<lparr>f_field = name, f_status = WARN, f_expected = expected,
           f_provided = Text (U ''Not specified''), f_comment = comment\<rparr>])
       else Inr validation)"

definition rule_material :: "pyval \<Rightarrow> finding list \<Rightarrow> py_error + finding list" where
  "rule_material = rule_present (U ''conductor_material'') (U ''Cu or Al'')
     (U ''Conductor material (Cu or Al) must be specified.'')"

definition rule_class :: "pyval \<Rightarrow> finding list \<Rightarrow> py_error + finding list" where
  "rule_class = rule_present (U ''conductor_class'') (U ''Class 1, 2, 5, or 6 per IEC 60228'')
     (U ''Conductor class must conform to IEC 60228 (Class 1=solid, 2=stranded, 5/6=flexible).'')"

definition rule_csa :: "pyval \<Rightarrow> finding list \<Rightarrow> py_error + finding list" where
  "rule_csa = rule_present (U ''csa_mm2'') (U ''Standard nominal size'')
     (U ''Cross-sectional area (CSA) in mm'' @ [178] @ U '' must be specified.'')"

definition rule_insulation :: "pyval \<Rightarrow> finding list \<Rightarrow> py_error + finding list" where
  "rule_insulation = rule_present (U ''insulation_material'') (U ''PVC, XLPE, or EPR'')
     (U ''Insulation material must be specified (typically PVC or XLPE for LV).'')"

definition rule_thickness :: "pyval \<Rightarrow> finding list \<Rightarrow> py_error + finding list" where
  "rule_thickness flds validation =
     bind (getitem flds (U ''insulation_thickness_mm'')) (\<lambda>v.
       if v = PNone then
         Inr (validation @ [\<lparr>f_field = U ''insulation_thickness_mm'', f_status = WARN,
           f_expected = U ''Per IEC 60502-1 Table 4'', f_provided = Text (U ''Not specified''),
           f_comment = U ''Insulation thickness must be specified and meet IEC 60502-1 minimum requirements.''\<rparr>])
       else bind (py_lt v (6 / 10)) (\<lambda>below.
         if below then
           Inr (validation @ [\<lparr>f_field = U ''insulation_thickness_mm'', f_status = FAIL,
             f_expected = 8805 # U '' 0.6 mm (typical minimum)'',
             f_provided = Formatted v (U '' mm''),
             f_comment = U ''Insulation thickness appears too low for IEC 60502-1 compliance.''\<rparr>])
         else Inr validation))"

definition overall_of :: "finding list \<Rightarrow> pystr" where
  "overall_of validation =
     (if list_ex (\<lambda>v. f_status v = FAIL) validation then FAIL
      else if list_ex (\<lambda>v. f_status v = WARN) validation then WARN
      else PASS)"

fun confidence_loop :: "finding list \<Rightarrow> rat \<Rightarrow> rat" where
  "confidence_loop [] confidence = confidence"
| "confidence_loop (v # vs) confidence =
     confidence_loop vs
       (if f_status v = FAIL then confidence - 35 / 100
        else if f_status v = WARN then confidence - 15 / 100
        else confidence)"

definition apply_iec_rules :: "pyval \<Rightarrow> py_error + (finding list \<times> pystr \<times> rat)" where
  "apply_iec_rules flds =
     bind (rule_standard flds []) (\<lambda>v1.
     bind (rule_voltage flds v1) (\<lambda>v2.
     bind (rule_material flds v2) (\<lambda>v3.
     bind (rule_class flds v3) (\<lambda>v4.
     bind (rule_csa flds v4) (\<lambda>v5.
     bind (rule_insulation flds v5) (\<lambda>v6.
     bind (rule_thickness flds v6) (\<lambda>validation.
       Inr (validation, overall_of validation,
            py_round2 (max (confidence_loop validation 1) 0)))))))))"

text \<open>The seven rules in the order \<open>apply_iec_rules\<close> runs them, and the field each reads
  (the keys of the dict \<open>fallback_extract\<close> starts from, in the same order).\<close>

definition RULES :: "(pyval \<Rightarrow> finding list \<Rightarrow> py_error + finding list) list" where
  "RULES = [rule_standard, rule_voltage, rule_material, rule_class, rule_csa,
            rule_insulation, rule_thickness]"

definition FIELD_NAMES :: "pystr list" where
  "FIELD_NAMES = [U ''standard'', U ''voltage_kv'', U ''conductor_material'',
     U ''conductor_class'', U ''csa_mm2'', U ''insulation_material'',
     U ''insulation_thickness_mm'']"

text \<open>The dict \<open>fallback_extract\<close> starts from: every field None.\<close>

definition empty_fields :: "(pystr \<times> pyval) list" where
  "empty_fields = map (\<lambda>k. (k, PNone)) FIELD_NAMES"

text \<open>A field set: a dict that has the seven keys, its two compared fields
  (\<open>voltage_kv\<close>, \<open>insulation_thickness_mm\<close>) holding None or a number.\<close>

fun is_number_or_none :: "pyval \<Rightarrow> bool" where
  "is_number_or_none PNone = True"
| "is_number_or_none (PBool b) = True"
| "is_number_or_none (PInt i) = True"
| "is_number_or_none (PFloat r) = True"
| "is_number_or_none _ = False"

definition has_number_or_none :: "(pystr \<times> pyval) list \<Rightarrow> pystr \<Rightarrow> bool" where
  "has_number_or_none kvs k = (case map_of kvs k of None \<Rightarrow> False | Some v \<Rightarrow> is_number_or_none v)"

fun is_field_set :: "pyval \<Rightarrow> bool" where
  "is_field_set (PDict kvs) =
     (list_all (\<lambda>k. map_of kvs k \<noteq> None) FIELD_NAMES
      \<and> has_number_or_none kvs (U ''voltage_kv'')
      \<and> has_number_or_none kvs (U ''insulation_thickness_mm''))"
| "is_field_set _ = False"

text \<open>The specification's words for the overall status and the confidence, over the
  statuses of a list of findings.\<close>

definition spec_overall_status :: "pystr list \<Rightarrow> pystr" where
  "spec_overall_status statuses =
     (if FAIL \<in> set statuses then FAIL else if WARN \<in> set statuses then WARN else PASS)"

definition spec_confidence :: "pystr list \<Rightarrow> rat" where
  "spec_confidence statuses =
     py_round2 (min 1 (max 0 (1 - 35 / 100 * of_nat (count_list statuses FAIL)
                                - 15 / 100 * of_nat (count_list statuses WARN))))"

text \<open>What one rule may do to the list of findings: leave it, or append one finding on
  its own field with status FAIL or WARN.\<close>

definition emits :: "pystr \<Rightarrow> finding list \<Rightarrow> finding list \<Rightarrow> bool" where
  "emits name v v' \<longleftrightarrow> (\<exists>out. v' = v @ out \<and> (out = [] \<or>
      (\<exists>x. out = [x] \<and> f_field x = name \<and> (f_status x = FAIL \<or> f_status x = WARN))))"

section \<open>Properties of the rule engine\<close>

lemma bind_Inr_iff: "bind m f = Inr y \<longleftrightarrow> (\<exists>x. m = Inr x \<and> f x = Inr y)"
  by (cases m) (simp_all add: bind_def)

lemma status_distinct: "FAIL \<noteq> WARN" "FAIL \<noteq> PASS" "WARN \<noteq> PASS"
  by (simp_all add: FAIL_def WARN_def PASS_def U_def)

lemma rule_standard_emits: "rule_standard flds v = Inr v' \<Longrightarrow> emits (U ''standard'') v v'"
  by (auto simp: rule_standard_def bind_Inr_iff emits_def split: if_splits)

lemma rule_voltage_emits: "rule_voltage flds v = Inr v' \<Longrightarrow> emits (U ''voltage_kv'') v v'"
  by (auto simp: rule_voltage_def bind_Inr_iff emits_def split: if_splits)

lemma rule_present_emits: "rule_present name e c flds v = Inr v' \<Longrightarrow> emits name v v'"
  by (auto simp: rule_present_def bind_Inr_iff emits_def split: if_splits)

lemma rule_thickness_emits:
  "rule_thickness flds v = Inr v' \<Longrightarrow> emits (U ''insulation_thickness_mm'') v v'"
  by (auto simp: rule_thickness_def bind_Inr_iff emits_def split: if_splits)

lemma emits_subseq:
  "emits name v v' \<Longrightarrow> subseq (map f_field v) ns \<Longrightarrow> subseq (map f_field v') (ns @ [name])"
  by (auto simp: emits_def intro: subseq_rev_drop_many list_emb_append_mono)

lemma emits_status:
  "emits name v v' \<Longrightarrow> \<forall>x\<in>set v. f_status x = FAIL \<or> f_status x = WARN
     \<Longrightarrow> \<forall>x\<in>set v'. f_status x = FAIL \<or> f_status x = WARN"
  by (auto simp: emits_def)


lemma apply_iec_rules_Inr:
  assumes "apply_iec_rules flds = Inr (v, ov, c)"
  shows "ov = overall_of v" and "c = py_round2 (max (confidence_loop v 1) 0)"
    and "subseq (map f_field v) FIELD_NAMES"
    and "\<forall>x\<in>set v. f_status x = FAIL \<or> f_status x = WARN"
proof -
  from assms obtain v1 v2 v3 v4 v5 v6 where
    r: "rule_standard flds [] = Inr v1" "rule_voltage flds v1 = Inr v2"
       "rule_material flds v2 = Inr v3" "rule_class flds v3 = Inr v4"
       "rule_csa flds v4 = Inr v5" "rule_insulation flds v5 = Inr v6"
       "rule_thickness flds v6 = Inr v"
    and o: "ov = overall_of v" "c = py_round2 (max (confidence_loop v 1) 0)"
    by (auto simp: apply_iec_rules_def bind_Inr_iff)
  show "ov = overall_of v" "c = py_round2 (max (confidence_loop v 1) 0)" using o by simp_all
  have e: "emits (U ''standard'') [] v1" "emits (U ''voltage_kv'') v1 v2"
    "emits (U ''conductor_material'') v2 v3" "emits (U ''conductor_class'') v3 v4"
    "emits (U ''csa_mm2'') v4 v5" "emits (U ''insulation_material'') v5 v6"
    "emits (U ''insulation_thickness_mm'') v6 v"
    using r rule_standard_emits rule_voltage_emits rule_thickness_emits
    by (simp_all add: rule_material_def rule_class_def rule_csa_def rule_insulation_def
        rule_present_emits)
  have "subseq (map f_field ([]::finding list)) []" by simp
  from emits_subseq[OF e(7) emits_subseq[OF e(6) emits_subseq[OF e(5) emits_subseq[OF e(4)
        emits_subseq[OF e(3) emits_subseq[OF e(2) emits_subseq[OF e(1) this]]]]]]]
  show "subseq (map f_field v) FIELD_NAMES" by (simp add: FIELD_NAMES_def)
  have "\<forall>x\<in>set ([]::finding list). f_status x = FAIL \<or> f_status x = WARN" by simp
  from emits_status[OF e(7) emits_status[OF e(6) emits_status[OF e(5) emits_status[OF e(4)
        emits_status[OF e(3) emits_status[OF e(2) emits_status[OF e(1) this]]]]]]]
  show "\<forall>x\<in>set v. f_status x = FAIL \<or> f_status x = WARN" .
qed

lemma list_ex_status: "list_ex (\<lambda>v. f_status v = s) xs \<longleftrightarrow> s \<in> set (map f_status xs)"
  by (induction xs) auto

lemma overall_of_spec: "overall_of v = spec_overall_status (map f_status v)"
  unfolding overall_of_def spec_overall_status_def list_ex_status by (rule refl)

lemma confidence_loop_count:
  "confidence_loop v c = c - 35 / 100 * of_nat (count_list (map f_status v) FAIL)
                           - 15 / 100 * of_nat (count_list (map f_status v) WARN)"
proof (induction v arbitrary: c)
  case Nil
  show ?case by simp
next
  case (Cons x xs)
  show ?case using status_distinct(1) by (simp add: Cons.IH) (simp add: field_simps)
qed

lemma confidence_spec:
  "py_round2 (max (confidence_loop v 1) 0) = spec_confidence (map f_status v)"
proof -
  let ?x = "1 - 35 / 100 * of_nat (count_list (map f_status v) FAIL)
              - 15 / 100 * of_nat (count_list (map f_status v) WARN) :: rat"
  have "?x \<le> 1" by simp
  then have "min 1 (max 0 ?x) = max ?x 0" by (simp add: max_def min_def)
  then show ?thesis by (simp add: spec_confidence_def confidence_loop_count)
qed

lemma getitem_field_set:
  "is_field_set flds \<Longrightarrow> k \<in> set FIELD_NAMES \<Longrightarrow> \<exists>v. getitem flds k = Inr v"
  by (cases flds) (auto simp: list_all_iff)

lemma py_gt_number: "is_number_or_none v \<Longrightarrow> v \<noteq> PNone \<Longrightarrow> \<exists>b. py_gt v c = Inr b"
  by (cases v) auto

lemma py_lt_number: "is_number_or_none v \<Longrightarrow> v \<noteq> PNone \<Longrightarrow> \<exists>b. py_lt v c = Inr b"
  by (cases v) auto

lemma rule_present_total:
  "is_field_set flds \<Longrightarrow> k \<in> set FIELD_NAMES \<Longrightarrow> \<exists>v'. rule_present k e c flds v = Inr v'"
  using getitem_field_set[of flds k] by (auto simp: rule_present_def bind_def)

lemma rule_standard_total: "is_field_set flds \<Longrightarrow> \<exists>v'. rule_standard flds v = Inr v'"
  using getitem_field_set[of flds "U ''standard''"]
  by (auto simp: rule_standard_def bind_def FIELD_NAMES_def)

lemma rule_voltage_total:
  assumes "is_field_set flds" shows "\<exists>v'. rule_voltage flds v = Inr v'"
proof -
  from assms obtain kvs x where "flds = PDict kvs" "map_of kvs (U ''voltage_kv'') = Some x"
    "is_number_or_none x"
    by (cases flds) (auto simp: has_number_or_none_def split: option.splits)
  then show ?thesis using py_gt_number[of x 1]
    by (auto simp: rule_voltage_def bind_def)
qed

lemma rule_thickness_total:
  assumes "is_field_set flds" shows "\<exists>v'. rule_thickness flds v = Inr v'"
proof -
  from assms obtain kvs x where "flds = PDict kvs"
    "map_of kvs (U ''insulation_thickness_mm'') = Some x" "is_number_or_none x"
    by (cases flds) (auto simp: has_number_or_none_def split: option.splits)
  then show ?thesis using py_lt_number[of x "6 / 10"]
    by (auto simp: rule_thickness_def bind_def)
qed

lemma apply_iec_rules_total:
  assumes "is_field_set flds" shows "\<exists>r. apply_iec_rules flds = Inr r"
proof -
  obtain v1 where 1: "rule_standard flds [] = Inr v1" using rule_standard_total[OF assms] by blast
  obtain v2 where 2: "rule_voltage flds v1 = Inr v2" using rule_voltage_total[OF assms] by blast
  obtain v3 where 3: "rule_material flds v2 = Inr v3"
    using rule_present_total[OF assms, of "U ''conductor_material''"] by (fastforce simp: rule_material_def FIELD_NAMES_def)
  obtain v4 where 4: "rule_class flds v3 = Inr v4"
    using rule_present_total[OF assms, of "U ''conductor_class''"] by (fastforce simp: rule_class_def FIELD_NAMES_def)
  obtain v5 where 5: "rule_csa flds v4 = Inr v5"
    using rule_present_total[OF assms, of "U ''csa_mm2''"] by (fastforce simp: rule_csa_def FIELD_NAMES_def)
  obtain v6 where 6: "rule_insulation flds v5 = Inr v6"
    using rule_present_total[OF assms, of "U ''insulation_material''"] by (fastforce simp: rule_insulation_def FIELD_NAMES_def)
  obtain v7 where 7: "rule_thickness flds v6 = Inr v7" using rule_thickness_total[OF assms] by blast
  show ?thesis using 1 2 3 4 5 6 7 by (simp add: apply_iec_rules_def bind_def)
qed


lemma map_of_empty_fields:
  "k \<in> set FIELD_NAMES \<Longrightarrow> map_of empty_fields k = Some PNone"
  by (auto simp: empty_fields_def FIELD_NAMES_def U_def)

lemma rule_present_empty:
  "k \<in> set FIELD_NAMES \<Longrightarrow> rule_present k e c (PDict empty_fields) v =
     Inr (v @ [\<lparr>f_field = k, f_status = WARN, f_expected = e,
                 f_provided = Text (U ''Not specified''), f_comment = c\<rparr>])"
  by (simp add: rule_present_def map_of_empty_fields bind_def)

lemma all_null_statuses:
  "\<exists>v. apply_iec_rules (PDict empty_fields) = Inr (v, FAIL, 0)
      \<and> map f_status v = [FAIL, WARN, WARN, WARN, WARN, WARN, WARN]
      \<and> map f_field v = FIELD_NAMES"
proof -
  have m: "U ''standard'' \<in> set FIELD_NAMES" "U ''voltage_kv'' \<in> set FIELD_NAMES"
    "U ''conductor_material'' \<in> set FIELD_NAMES" "U ''conductor_class'' \<in> set FIELD_NAMES"
    "U ''csa_mm2'' \<in> set FIELD_NAMES" "U ''insulation_material'' \<in> set FIELD_NAMES"
    "U ''insulation_thickness_mm'' \<in> set FIELD_NAMES"
    by (simp_all add: FIELD_NAMES_def)
  have r: "py_round2 0 = 0" by (simp add: py_round2_def round_half_even_def)
  show ?thesis
    using status_distinct
    by (simp add: apply_iec_rules_def rule_standard_def rule_voltage_def rule_material_def
        rule_class_def rule_csa_def rule_insulation_def rule_thickness_def
        rule_present_empty m map_of_empty_fields bind_def overall_of_def r
        FIELD_NAMES_def)
qed

lemma distinct_field_names: "distinct FIELD_NAMES"
  by (simp add: FIELD_NAMES_def U_def)

lemma subseq_distinct: "subseq xs ys \<Longrightarrow> distinct ys \<Longrightarrow> distinct xs"
proof (induction rule: list_emb.induct)
  case (list_emb_Cons2 x y xs ys)
  have "x \<notin> set xs"
  proof
    assume "x \<in> set xs"
    with list_emb_set[OF list_emb_Cons2(2)] obtain z where "z \<in> set ys" "x = z" by blast
    with list_emb_Cons2 show False by simp
  qed
  with list_emb_Cons2 show ?case by simp
qed simp_all

lemma filter_at_most_one:
  "distinct (map f xs) \<Longrightarrow> length (filter (\<lambda>x. f x = n) xs) \<le> Suc 0"
proof (induction xs)
  case Nil
  show ?case by simp
next
  case (Cons a xs)
  show ?case
  proof (cases "f a = n")
    case True
    from Cons.prems have "f a \<notin> f ` set xs" by simp
    with True have "\<forall>x\<in>set xs. f x \<noteq> n" by blast
    then have "filter (\<lambda>x. f x = n) xs = []"
      by (simp add: filter_empty_conv)
    with True show ?thesis by simp
  next
    case False
    with Cons show ?thesis by simp
  qed
qed

lemma emits_at_most_one: "emits name v v' \<Longrightarrow> \<exists>out. v' = v @ out \<and> length out \<le> 1"
  by (auto simp: emits_def)

lemma rules_at_most_one:
  assumes "r \<in> set RULES" "r flds val = Inr val'"
  shows "\<exists>out. val' = val @ out \<and> length out \<le> 1"
proof -
  from assms have "\<exists>name. emits name val val'"
    unfolding RULES_def
    by (auto simp: rule_material_def rule_class_def rule_csa_def rule_insulation_def
        dest!: rule_standard_emits rule_voltage_emits rule_thickness_emits rule_present_emits)
  then show ?thesis using emits_at_most_one by blast
qed

text \<open>
  Claim C1. On every field set the rule engine returns, and whenever it returns, its
  overall status is FAIL if a finding has status FAIL, else WARN if a finding has status
  WARN, else PASS.
\<close>

theorem overall_status_precedence:
  "(is_field_set flds \<longrightarrow> (\<exists>v ov c. apply_iec_rules flds = Inr (v, ov, c))) \<and>
   (\<forall>v ov c. apply_iec_rules flds = Inr (v, ov, c)
      \<longrightarrow> ov = spec_overall_status (map f_status v))"
proof (intro conjI impI allI)
  assume "is_field_set flds"
  then obtain r where "apply_iec_rules flds = Inr r" using apply_iec_rules_total by blast
  then show "\<exists>v ov c. apply_iec_rules flds = Inr (v, ov, c)" by (cases r) auto
next
  fix v ov c assume "apply_iec_rules flds = Inr (v, ov, c)"
  then show "ov = spec_overall_status (map f_status v)"
    using apply_iec_rules_Inr(1) overall_of_spec by simp
qed

theorem overall_status_precedence_witness:
  "is_field_set (PDict empty_fields) \<and>
   (\<exists>v c. apply_iec_rules (PDict empty_fields) = Inr (v, FAIL, c)
      \<and> FAIL = spec_overall_status (map f_status v))"
proof -
  have "is_field_set (PDict empty_fields)"
    by (simp add: empty_fields_def FIELD_NAMES_def has_number_or_none_def U_def)
  moreover obtain v where "apply_iec_rules (PDict empty_fields) = Inr (v, FAIL, 0)"
    using all_null_statuses by blast
  ultimately show ?thesis
    using overall_status_precedence[of "PDict empty_fields"] by blast
qed

text \<open>
  Claim C4. The rule-engine confidence is 1 minus 0.35 for each FAIL finding and 0.15 for
  each WARN finding, clamped to the interval from 0 to 1 and rounded to two places. The
  field set with every field None gives one FAIL (rule 1, standard) and six WARN (rules 2
  to 7, in rule order), confidence 0 and overall status FAIL.
\<close>

theorem rule_confidence_formula:
  "(\<forall>v ov c. apply_iec_rules flds = Inr (v, ov, c) \<longrightarrow> c = spec_confidence (map f_status v))
   \<and> (\<exists>v. apply_iec_rules (PDict empty_fields) = Inr (v, FAIL, 0)
          \<and> map f_status v = [FAIL, WARN, WARN, WARN, WARN, WARN, WARN]
          \<and> map f_field v = FIELD_NAMES)"
  using apply_iec_rules_Inr(2) confidence_spec all_null_statuses by simp

theorem rule_confidence_formula_witness:
  "\<exists>v. apply_iec_rules (PDict empty_fields) = Inr (v, FAIL, 0)
      \<and> spec_confidence (map f_status v) = 0"
proof -
  obtain v where v: "apply_iec_rules (PDict empty_fields) = Inr (v, FAIL, 0)"
    using all_null_statuses by blast
  with rule_confidence_formula[of "PDict empty_fields"] show ?thesis by auto
qed

text \<open>
  Claim C10. Every finding of the rule engine has status FAIL or WARN, never PASS; each
  of the seven rules appends at most one finding, so the findings' fields follow the rule
  order without repetition; and the overall status is PASS exactly when there is no
  finding.
\<close>

theorem findings_never_pass:
  assumes "apply_iec_rules flds = Inr (v, ov, c)"
  shows "(\<forall>x\<in>set v. f_status x = FAIL \<or> f_status x = WARN)
       \<and> (\<forall>x\<in>set v. f_status x \<noteq> PASS)
       \<and> (\<forall>r\<in>set RULES. \<forall>val val'. r flds val = Inr val'
             \<longrightarrow> (\<exists>out. val' = val @ out \<and> length out \<le> 1))
       \<and> subseq (map f_field v) FIELD_NAMES
       \<and> (\<forall>n. length (filter (\<lambda>x. f_field x = n) v) \<le> 1)
       \<and> (ov = PASS \<longleftrightarrow> v = [])"
proof -
  note a = apply_iec_rules_Inr[OF assms]
  have s: "\<forall>x\<in>set v. f_status x = FAIL \<or> f_status x = WARN" by (rule a(4))
  then have p: "\<forall>x\<in>set v. f_status x \<noteq> PASS" using status_distinct by auto
  have "distinct (map f_field v)"
    using a(3) distinct_field_names subseq_distinct by blast
  then have o: "\<forall>n. length (filter (\<lambda>x. f_field x = n) v) \<le> 1"
    using filter_at_most_one[of f_field v] by simp
  have e: "ov = PASS \<longleftrightarrow> v = []"
  proof (cases v)
    case Nil
    then show ?thesis using a(1) by (simp add: overall_of_def)
  next
    case (Cons x xs)
    then have "f_status x = FAIL \<or> f_status x = WARN" using s by simp
    then have "overall_of v \<noteq> PASS"
      using Cons status_distinct by (auto simp: overall_of_def)
    then show ?thesis using a(1) Cons by simp
  qed
  show ?thesis using s p o e a(3) rules_at_most_one by blast
qed

theorem findings_never_pass_witness:
  "\<exists>v. apply_iec_rules (PDict empty_fields) = Inr (v, FAIL, 0)
     \<and> (\<forall>x\<in>set v. f_status x \<noteq> PASS) \<and> v \<noteq> [] \<and> subseq (map f_field v) FIELD_NAMES"
proof -
  obtain v where v: "apply_iec_rules (PDict empty_fields) = Inr (v, FAIL, 0)"
    using all_null_statuses by blast
  from findings_never_pass[OF v] v status_distinct show ?thesis by auto
qed

end
